theory Spec2Isabelle
  imports Main "HOL-Library.Sublist" "HOL-Library.Multiset"
begin

section \<open>JavaScript strings\<close>

text \<open>
  A JavaScript string is a sequence of UTF-16 code units; a code unit is modelled by
  its number.  \<open>js\<close> turns a literal of the source into such a sequence.
\<close>

type_synonym jsstring = "nat list"

definition js :: "string \<Rightarrow> jsstring" where
  "js s = map of_char s"

text \<open>\<^verbatim>\<open>s.includes(t)\<close> and \<^verbatim>\<open>s.endsWith(t)\<close>.\<close>

definition includesStr :: "jsstring \<Rightarrow> jsstring \<Rightarrow> bool" where
  "includesStr s t = sublist t s"

definition endsWith :: "jsstring \<Rightarrow> jsstring \<Rightarrow> bool" where
  "endsWith s t = suffix t s"

text \<open>
  \<^verbatim>\<open>s.toLowerCase()\<close> on the Latin-1 repertoire: A-Z and the accented capitals
  U+00C0-U+00DE (without the multiplication sign U+00D7) move up by 32.  Code units
  above U+00FF are left as they are.  Their lower case does not matter to the rules on
  file names, which look for ASCII text only: the lower case of such a code unit
  contains an ASCII letter in two cases, U+212A (a k) and U+0130 (an i followed by
  U+0307), and the rules mention no k and no i without a letter behind it.
\<close>

definition lower_unit :: "nat \<Rightarrow> nat" where
  "lower_unit x =
     (if (65 \<le> x \<and> x \<le> 90) \<or> (192 \<le> x \<and> x \<le> 222 \<and> x \<noteq> 215) then x + 32 else x)"

definition toLowerCase :: "jsstring \<Rightarrow> jsstring" where
  "toLowerCase s = map lower_unit s"


section \<open>Node's \<^verbatim>\<open>path\<close> module (POSIX flavour)\<close>

text \<open>
  \<^verbatim>\<open>path.basename(p)\<close>: trailing slashes are dropped, then the part after the last
  remaining slash is returned (the empty string when nothing remains).
\<close>

definition basename :: "jsstring \<Rightarrow> jsstring" where
  "basename p = rev (takeWhile (\<lambda>x. x \<noteq> 47) (dropWhile (\<lambda>x. x = 47) (rev p)))"

text \<open>\<^verbatim>\<open>p.split("/")\<close> and its inverse.\<close>

fun split_slash :: "jsstring \<Rightarrow> jsstring list" where
  "split_slash [] = [[]]"
| "split_slash (c # cs) =
     (if c = 47 then [] # split_slash cs
      else (case split_slash cs of [] \<Rightarrow> [[c]] | s # ss \<Rightarrow> (c # s) # ss))"

fun join_slash :: "jsstring list \<Rightarrow> jsstring" where
  "join_slash [] = []"
| "join_slash [s] = s"
| "join_slash (s # t # ss) = s @ 47 # join_slash (t # ss)"

text \<open>
  \<^verbatim>\<open>normalizeString\<close> walks over the segments of the path: empty segments and
  \<^verbatim>\<open>.\<close> are dropped, \<^verbatim>\<open>..\<close> removes the segment before it (when there is one that
  is not itself \<^verbatim>\<open>..\<close>) and is otherwise kept only in a relative path.
\<close>

definition normalize_step :: "bool \<Rightarrow> jsstring list \<Rightarrow> jsstring \<Rightarrow> jsstring list" where
  "normalize_step allowAboveRoot res seg =
     (if seg = [] \<or> seg = js ''.'' then res
      else if seg = js ''..'' then
        (if res \<noteq> [] \<and> last res \<noteq> js ''..'' then butlast res
         else if allowAboveRoot then res @ [js ''..'']
         else res)
      else res @ [seg])"

definition normalizeString :: "jsstring \<Rightarrow> bool \<Rightarrow> jsstring" where
  "normalizeString p allowAboveRoot =
     join_slash (foldl (normalize_step allowAboveRoot) [] (split_slash p))"

definition normalize_path :: "jsstring \<Rightarrow> jsstring" where
  "normalize_path p =
     (if p = [] then js ''.''
      else
        (let isAbsolute = (hd p = 47);
             trailingSeparator = (last p = 47);
             q = normalizeString p (\<not> isAbsolute)
         in if q = [] then (if isAbsolute then js ''/'' else if trailingSeparator then js ''./'' else js ''.'')
            else (if isAbsolute then [47] else []) @ q @ (if trailingSeparator then [47] else [])))"

text \<open>\<^verbatim>\<open>path.join(a, b)\<close>: the non-empty arguments joined by a slash, then normalised.\<close>

definition join :: "jsstring \<Rightarrow> jsstring \<Rightarrow> jsstring" where
  "join a b =
     (if a = [] \<and> b = [] then js ''.''
      else if a = [] then normalize_path b
      else if b = [] then normalize_path a
      else normalize_path (a @ 47 # b))"


section \<open>Reading a file as UTF-8\<close>

text \<open>
  \<^verbatim>\<open>fs.readFileSync(p, "utf8")\<close> throws when the file cannot be opened or read.  When it
  can, the bytes are decoded as UTF-8 and decoding never fails: every ill-formed
  sequence becomes the replacement character U+FFFD, and a code point above U+FFFF
  becomes a surrogate pair.
\<close>

definition cont :: "nat \<Rightarrow> bool" where
  "cont b = (128 \<le> b \<and> b \<le> 191)"

definition second_ok :: "nat \<Rightarrow> nat \<Rightarrow> bool" where
  "second_ok b c =
     (if b = 224 then 160 \<le> c \<and> c \<le> 191
      else if b = 237 then 128 \<le> c \<and> c \<le> 159
      else if b = 240 then 144 \<le> c \<and> c \<le> 191
      else if b = 244 then 128 \<le> c \<and> c \<le> 143
      else cont c)"

definition surrogates :: "nat \<Rightarrow> jsstring" where
  "surrogates cp = [55296 + (cp - 65536) div 1024, 56320 + (cp - 65536) mod 1024]"

fun utf8_decode :: "nat list \<Rightarrow> jsstring" where
  "utf8_decode [] = []"
| "utf8_decode (b # bs) =
     (if b < 128 then b # utf8_decode bs
      else if 194 \<le> b \<and> b \<le> 223 then
        (case bs of
           [] \<Rightarrow> [65533]
         | c1 # r1 \<Rightarrow>
             if cont c1 then ((b - 192) * 64 + (c1 - 128)) # utf8_decode r1
             else 65533 # utf8_decode bs)
      else if 224 \<le> b \<and> b \<le> 239 then
        (case bs of
           [] \<Rightarrow> [65533]
         | c1 # r1 \<Rightarrow>
             if second_ok b c1 then
               (case r1 of
                  [] \<Rightarrow> [65533]
                | c2 # r2 \<Rightarrow>
                    if cont c2
                    then ((b - 224) * 4096 + (c1 - 128) * 64 + (c2 - 128)) # utf8_decode r2
                    else 65533 # utf8_decode r1)
             else 65533 # utf8_decode bs)
      else if 240 \<le> b \<and> b \<le> 244 then
        (case bs of
           [] \<Rightarrow> [65533]
         | c1 # r1 \<Rightarrow>
             if second_ok b c1 then
               (case r1 of
                  [] \<Rightarrow> [65533]
                | c2 # r2 \<Rightarrow>
                    if cont c2 then
                      (case r2 of
                         [] \<Rightarrow> [65533]
                       | c3 # r3 \<Rightarrow>
                           if cont c3
                           then surrogates ((b - 240) * 262144 + (c1 - 128) * 4096
                                            + (c2 - 128) * 64 + (c3 - 128)) @ utf8_decode r3
                           else 65533 # utf8_decode r2)
                    else 65533 # utf8_decode r1)
             else 65533 # utf8_decode bs)
      else 65533 # utf8_decode bs)"

datatype error = ReadFileError | ReaddirError jsstring

text \<open>
  What the file holds is \<open>Some bytes\<close>, or \<open>None\<close> when reading it throws
  (no permission, an I/O error).
\<close>

definition readFileSync :: "char list option \<Rightarrow> error + jsstring" where
  "readFileSync fileData =
     (case fileData of
        None \<Rightarrow> Inl ReadFileError
      | Some bytes \<Rightarrow> Inr (utf8_decode (map of_char bytes)))"


section \<open>Regular expressions\<close>

text \<open>
  The patterns of the scanner use literals, character classes, alternatives and greedy
  repetition only (no back-reference, no look-around, no anchor), so whether
  \<^verbatim>\<open>content.match(re)\<close> finds something is a question of regular languages: is there a
  piece of the text that belongs to the language of the pattern.  A pattern is a term
  of \<open>rexp\<close>, an atom being a set of code units; matching is computed with
  derivatives.
\<close>

datatype rexp = Zero | One | Atom "nat \<Rightarrow> bool" | Alt rexp rexp | Seq rexp rexp | Star rexp

primrec nullable :: "rexp \<Rightarrow> bool" where
  "nullable Zero = False"
| "nullable One = True"
| "nullable (Atom p) = False"
| "nullable (Alt r s) = (nullable r \<or> nullable s)"
| "nullable (Seq r s) = (nullable r \<and> nullable s)"
| "nullable (Star r) = True"

primrec deriv :: "nat \<Rightarrow> rexp \<Rightarrow> rexp" where
  "deriv c Zero = Zero"
| "deriv c One = Zero"
| "deriv c (Atom p) = (if p c then One else Zero)"
| "deriv c (Alt r s) = Alt (deriv c r) (deriv c s)"
| "deriv c (Seq r s) =
     (if nullable r then Alt (Seq (deriv c r) s) (deriv c s) else Seq (deriv c r) s)"
| "deriv c (Star r) = Seq (deriv c r) (Star r)"

text \<open>\<open>match_at r s\<close>: the pattern matches at the very start of \<open>s\<close>.\<close>

fun match_at :: "rexp \<Rightarrow> jsstring \<Rightarrow> bool" where
  "match_at r [] = nullable r"
| "match_at r (c # cs) = (nullable r \<or> match_at (deriv c r) cs)"

text \<open>
  \<open>match_re r s\<close>: \<^verbatim>\<open>s.match(r)\<close> is not null.  The pattern is tried at every start
  index, from the first to the end of the string.
\<close>

fun match_re :: "rexp \<Rightarrow> jsstring \<Rightarrow> bool" where
  "match_re r [] = nullable r"
| "match_re r (c # cs) = (match_at r (c # cs) \<or> match_re r cs)"

text \<open>The language of a pattern, for reasoning about the matcher.\<close>

definition conc :: "'a list set \<Rightarrow> 'a list set \<Rightarrow> 'a list set" where
  "conc A B = {u @ v | u v. u \<in> A \<and> v \<in> B}"

inductive_set star :: "'a list set \<Rightarrow> 'a list set" for A :: "'a list set" where
  star_Nil: "[] \<in> star A"
| star_app: "u \<in> A \<Longrightarrow> v \<in> star A \<Longrightarrow> u @ v \<in> star A"

primrec lang :: "rexp \<Rightarrow> jsstring set" where
  "lang Zero = {}"
| "lang One = {[]}"
| "lang (Atom p) = {[c] | c. p c}"
| "lang (Alt r s) = lang r \<union> lang s"
| "lang (Seq r s) = conc (lang r) (lang s)"
| "lang (Star r) = star (lang r)"

subsection \<open>The notation of the source's patterns\<close>

text \<open>
  Under the \<^verbatim>\<open>i\<close> flag two code units match when their canonical forms agree.  The
  canonical form of an ASCII letter is its capital; a code unit above 127 is never
  mapped to an ASCII one, and every literal of the patterns is ASCII, so that
  \<open>canonicalize\<close> may leave the code units above 127 alone.
\<close>

definition canonicalize :: "nat \<Rightarrow> nat" where
  "canonicalize x = (if 97 \<le> x \<and> x \<le> 122 then x - 32 else x)"

definition chr :: "char \<Rightarrow> rexp" where
  "chr c = Atom (\<lambda>x. x = of_char c)"

definition ichr :: "char \<Rightarrow> rexp" where
  "ichr c = Atom (\<lambda>x. canonicalize x = canonicalize (of_char c))"

definition seqs :: "rexp list \<Rightarrow> rexp" where
  "seqs rs = foldr Seq rs One"

definition lit :: "string \<Rightarrow> rexp" where
  "lit s = seqs (map chr s)"

definition ilit :: "string \<Rightarrow> rexp" where
  "ilit s = seqs (map ichr s)"

text \<open>\<^verbatim>\<open>r+\<close>, \<^verbatim>\<open>r?\<close>, \<^verbatim>\<open>r{n}\<close> and \<^verbatim>\<open>r{n,}\<close>.\<close>

definition plus_re :: "rexp \<Rightarrow> rexp" where
  "plus_re r = Seq r (Star r)"

definition opt_re :: "rexp \<Rightarrow> rexp" where
  "opt_re r = Alt r One"

primrec rep :: "nat \<Rightarrow> rexp \<Rightarrow> rexp" where
  "rep 0 r = One"
| "rep (Suc n) r = Seq r (rep n r)"

definition at_least :: "nat \<Rightarrow> rexp \<Rightarrow> rexp" where
  "at_least n r = Seq (rep n r) (Star r)"

text \<open>
  \<^verbatim>\<open>\s\<close> (white space and line terminators), \<^verbatim>\<open>\S\<close>, and the dot, which matches
  everything but a line terminator.  None of the three changes under the \<^verbatim>\<open>i\<close> flag.
\<close>

definition line_terminator :: "nat \<Rightarrow> bool" where
  "line_terminator x = (x = 10 \<or> x = 13 \<or> x = 8232 \<or> x = 8233)"

definition white_space :: "nat \<Rightarrow> bool" where
  "white_space x =
     (x = 9 \<or> x = 10 \<or> x = 11 \<or> x = 12 \<or> x = 13 \<or> x = 32 \<or> x = 160 \<or> x = 5760
      \<or> (8192 \<le> x \<and> x \<le> 8202) \<or> x = 8232 \<or> x = 8233 \<or> x = 8239 \<or> x = 8287
      \<or> x = 12288 \<or> x = 65279)"

definition space :: rexp where
  "space = Atom white_space"

definition nonspace :: rexp where
  "nonspace = Atom (\<lambda>x. \<not> white_space x)"

definition dot :: rexp where
  "dot = Atom (\<lambda>x. \<not> line_terminator x)"

definition digit :: "nat \<Rightarrow> bool" where
  "digit x = (48 \<le> x \<and> x \<le> 57)"

definition upper_AZ :: "nat \<Rightarrow> bool" where
  "upper_AZ x = (65 \<le> x \<and> x \<le> 90)"

definition lower_az :: "nat \<Rightarrow> bool" where
  "lower_az x = (97 \<le> x \<and> x \<le> 122)"

text \<open>\<^verbatim>\<open>['"]\<close> and \<^verbatim>\<open>["']\<close>.\<close>

definition quote :: rexp where
  "quote = Atom (\<lambda>x. x = 39 \<or> x = 34)"

subsection \<open>The patterns of the content rules\<close>

text \<open>\<^verbatim>\<open>/AKIA[0-9A-Z]{16}/\<close>\<close>

definition re_aws_key :: rexp where
  "re_aws_key = seqs [lit ''AKIA'', rep 16 (Atom (\<lambda>x. digit x \<or> upper_AZ x))]"

text \<open>\<^verbatim>\<open>/password\s*=\s*['"].+['"]/i\<close>\<close>

definition re_password :: rexp where
  "re_password =
     seqs [ilit ''password'', Star space, ichr CHR ''='', Star space, quote, plus_re dot, quote]"

text \<open>\<^verbatim>\<open>/api[_-]?key\s*=\s*['"].+['"]/i\<close>\<close>

definition re_api_key :: rexp where
  "re_api_key =
     seqs [ilit ''api'', opt_re (Atom (\<lambda>x. x = 95 \<or> x = 45)), ilit ''key'', Star space,
           ichr CHR ''='', Star space, quote, plus_re dot, quote]"

text \<open>\<^verbatim>\<open>/sk_live_[0-9a-zA-Z]{24,}/\<close>\<close>

definition re_stripe :: rexp where
  "re_stripe = seqs [lit ''sk_live_'', at_least 24 (Atom (\<lambda>x. digit x \<or> lower_az x \<or> upper_AZ x))]"

text \<open>\<^verbatim>\<open>/mongodb:\/\/\S+/i\<close> and \<^verbatim>\<open>/postgres:\/\/\S+/i\<close>\<close>

definition re_mongodb :: rexp where
  "re_mongodb = seqs [ilit ''mongodb://'', plus_re nonspace]"

definition re_postgres :: rexp where
  "re_postgres = seqs [ilit ''postgres://'', plus_re nonspace]"

text \<open>\<^verbatim>\<open>/eyJ[A-Za-z0-9_-]+\.[A-Za-z0-9_-]+\.[A-Za-z0-9_-]+/\<close>\<close>

definition base64url :: rexp where
  "base64url = Atom (\<lambda>x. upper_AZ x \<or> lower_az x \<or> digit x \<or> x = 95 \<or> x = 45)"

definition re_jwt :: rexp where
  "re_jwt = seqs [lit ''eyJ'', plus_re base64url, chr CHR ''.'', plus_re base64url,
                  chr CHR ''.'', plus_re base64url]"

text \<open>\<^verbatim>\<open>/crypto\.createHash\(["'](md5|sha1)["']\)/i\<close>\<close>

definition re_weak_hash :: rexp where
  "re_weak_hash =
     seqs [ilit ''crypto.createHash('', quote, Alt (ilit ''md5'') (ilit ''sha1''), quote,
           ichr CHR '')'']"

text \<open>\<^verbatim>\<open>/crypto\.createHash\(["']sha256["']\)/i\<close>\<close>

definition re_sha256 :: rexp where
  "re_sha256 = seqs [ilit ''crypto.createHash('', quote, ilit ''sha256'', quote, ichr CHR '')'']"

text \<open>\<^verbatim>\<open>/res\.cookie\(/i\<close>\<close>

definition re_cookie :: rexp where
  "re_cookie = ilit ''res.cookie(''"

text \<open>\<^verbatim>\<open>/(admin|root)\s*[:=]\s*(admin|password|1234)/i\<close>\<close>

definition re_default_cred :: rexp where
  "re_default_cred =
     seqs [Alt (ilit ''admin'') (ilit ''root''), Star space, Atom (\<lambda>x. x = 58 \<or> x = 61),
           Star space, Alt (ilit ''admin'') (Alt (ilit ''password'') (ilit ''1234''))]"

text \<open>\<^verbatim>\<open>/console\.log\(.+password/i\<close> and \<^verbatim>\<open>/console\.log\(.+token/i\<close>\<close>

definition re_log_password :: rexp where
  "re_log_password = seqs [ilit ''console.log('', plus_re dot, ilit ''password'']"

definition re_log_token :: rexp where
  "re_log_token = seqs [ilit ''console.log('', plus_re dot, ilit ''token'']"

text \<open>\<^verbatim>\<open>/s3:\/\/\S+/i\<close>\<close>

definition re_s3 :: rexp where
  "re_s3 = seqs [ilit ''s3://'', plus_re nonspace]"

text \<open>\<^verbatim>\<open>/Error:/i\<close> and \<^verbatim>\<open>/at\s+\S+/\<close>\<close>

definition re_error :: rexp where
  "re_error = ilit ''Error:''"

definition re_stack_frame :: rexp where
  "re_stack_frame = seqs [lit ''at'', plus_re space, plus_re nonspace]"



section \<open>The scanner\<close>

subsection \<open>Findings\<close>

datatype category = Secrets | Crypto | Cookies | Credentials | Logging | Cloud | Errors

datatype severity = Critical | High | Medium | Low

record finding =
  category :: category
  severity :: severity
  message :: jsstring
  hint :: jsstring

text \<open>\<^verbatim>\<open>if (c) issues.push(f)\<close>\<close>

definition push_if :: "bool \<Rightarrow> finding \<Rightarrow> finding list \<Rightarrow> finding list" where
  "push_if c f issues = (if c then issues @ [f] else issues)"

subsection \<open>\<^verbatim>\<open>scanFile\<close>\<close>

text \<open>
  \<open>fileData\<close> is what the file at \<open>filePath\<close> holds.  The checks on the name run
  first; the checks on the content run inside the \<^verbatim>\<open>try\<close>, whose \<^verbatim>\<open>catch\<close> is reached
  when \<^verbatim>\<open>readFileSync\<close> throws, before any of them has run.
\<close>

definition scanFile :: "char list option \<Rightarrow> jsstring \<Rightarrow> finding list" where
  "scanFile fileData filePath =
    (let issues = [];
         lower = toLowerCase (basename filePath);
         issues = push_if (includesStr lower (js ''.env''))
           \<lparr>category = Secrets, severity = Critical,
            message = js ''Sensitive .env file detected: '' @ filePath,
            hint = js ''Never commit .env files. Use environment variables or secret managers.''\<rparr> issues;
         issues = push_if (includesStr lower (js ''id_rsa'') \<or> endsWith lower (js ''.pem''))
           \<lparr>category = Secrets, severity = Critical,
            message = js ''Private key detected: '' @ filePath,
            hint = js ''Remove private keys from repos. Store them securely outside version control.''\<rparr> issues;
         issues = push_if (lower = js ''config.js'' \<or> lower = js ''config.json'')
           \<lparr>category = Secrets, severity = High,
            message = js ''Config file may contain secrets: '' @ filePath,
            hint = js ''Check config files for hardcoded credentials. Move sensitive values to env vars.''\<rparr> issues;
         issues = push_if (includesStr lower (js ''secret'') \<or> includesStr lower (js ''password''))
           \<lparr>category = Secrets, severity = High,
            message = js ''Potential secret in filename: '' @ filePath,
            hint = js ''Avoid naming files with 'secret' or 'password'. It signals sensitive content.''\<rparr> issues;
         issues = push_if (endsWith lower (js ''.log''))
           \<lparr>category = Logging, severity = Low,
            message = js ''Debug log file detected: '' @ filePath,
            hint = js ''Logs may leak sensitive data. Avoid committing them.''\<rparr> issues in
     case readFileSync fileData of
       Inl e \<Rightarrow> issues
     | Inr content \<Rightarrow>
         (let
              issues = push_if (match_re re_aws_key content)
                \<lparr>category = Secrets, severity = Critical,
                 message = js ''AWS Access Key found in '' @ filePath,
                 hint = js ''Rotate AWS keys and use IAM roles instead of hardcoding.''\<rparr> issues;
              issues = push_if (includesStr content (js ''AWS_SECRET_KEY''))
                \<lparr>category = Secrets, severity = Critical,
                 message = js ''AWS secret key reference in '' @ filePath,
                 hint = js ''Remove AWS secrets from code. Use environment variables or secret managers.''\<rparr> issues;
              issues = push_if (match_re re_password content)
                \<lparr>category = Secrets, severity = Critical,
                 message = js ''Hardcoded password found in '' @ filePath,
                 hint = js ''Never hardcode passwords. Use env vars or secure vaults.''\<rparr> issues;
              issues = push_if (includesStr content (js ''BEGIN PRIVATE KEY''))
                \<lparr>category = Secrets, severity = Critical,
                 message = js ''Private key content found in '' @ filePath,
                 hint = js ''Remove private keys from source code. Store them securely.''\<rparr> issues;
              issues = push_if (match_re re_api_key content)
                \<lparr>category = Secrets, severity = Critical,
                 message = js ''API key found in '' @ filePath,
                 hint = js ''Rotate API keys and store them outside code.''\<rparr> issues;
              issues = push_if (match_re re_stripe content)
                \<lparr>category = Secrets, severity = Critical,
                 message = js ''Stripe live secret key found in '' @ filePath,
                 hint = js ''Use test keys in dev. Never commit live keys.''\<rparr> issues;
              issues = push_if (match_re re_mongodb content)
                \<lparr>category = Secrets, severity = High,
                 message = js ''MongoDB connection string found in '' @ filePath,
                 hint = js ''Move DB connection strings to env vars.''\<rparr> issues;
              issues = push_if (match_re re_postgres content)
                \<lparr>category = Secrets, severity = High,
                 message = js ''Postgres connection string found in '' @ filePath,
                 hint = js ''Store DB credentials securely outside code.''\<rparr> issues;
              issues = push_if (match_re re_jwt content)
                \<lparr>category = Secrets, severity = High,
                 message = js ''JWT token found in '' @ filePath,
                 hint = js ''Never commit JWTs. Generate them dynamically.''\<rparr> issues;
              issues = push_if (match_re re_weak_hash content)
                \<lparr>category = Crypto, severity = High,
                 message = js ''Weak crypto algorithm (MD5/SHA1) used in '' @ filePath,
                 hint = js ''Use bcrypt, Argon2, or SHA256+salt for secure hashing.''\<rparr> issues;
              issues = push_if (match_re re_sha256 content)
                \<lparr>category = Crypto, severity = Medium,
                 message = js ''Plain SHA256 used for password hashing in '' @ filePath,
                 hint = js ''Use adaptive algorithms like bcrypt or Argon2 for password storage.''\<rparr> issues;
              issues = push_if (match_re re_cookie content \<and> \<not> includesStr content (js ''HttpOnly''))
                \<lparr>category = Cookies, severity = High,
                 message = js ''Cookie set without HttpOnly flag in '' @ filePath,
                 hint = js ''Add { httpOnly: true } to cookies to prevent XSS attacks.''\<rparr> issues;
              issues = push_if (match_re re_cookie content \<and> \<not> includesStr content (js ''Secure''))
                \<lparr>category = Cookies, severity = High,
                 message = js ''Cookie set without Secure flag in '' @ filePath,
                 hint = js ''Add { secure: true } to cookies to enforce HTTPS.''\<rparr> issues;
              issues = push_if (match_re re_default_cred content)
                \<lparr>category = Credentials, severity = Critical,
                 message = js ''Default credential found in '' @ filePath,
                 hint = js ''Remove default creds. Enforce strong unique passwords.''\<rparr> issues;
              issues = push_if (match_re re_log_password content \<or> match_re re_log_token content)
                \<lparr>category = Logging, severity = Medium,
                 message = js ''Sensitive data logged in '' @ filePath,
                 hint = js ''Avoid logging passwords or tokens. Use masked logs.''\<rparr> issues;
              issues = push_if (match_re re_s3 content \<and> \<not> includesStr content (js ''private''))
                \<lparr>category = Cloud, severity = High,
                 message = js ''Potential public S3 bucket reference in '' @ filePath,
                 hint = js ''Ensure S3 buckets are private and access'' @ 8209 # js ''controlled.''\<rparr> issues;
              issues = push_if (match_re re_error content \<and> match_re re_stack_frame content)
                \<lparr>category = Errors, severity = Medium,
                 message = js ''Stack trace exposure risk in '' @ filePath,
                 hint = js ''Disable stack traces in production. Use generic error messages.''\<rparr> issues
          in issues))"

subsection \<open>\<^verbatim>\<open>scanForSecrets\<close>\<close>

text \<open>
  The file system below the scanned path, as one scan sees it: a tree whose nodes say
  what \<^verbatim>\<open>statSync\<close>, \<^verbatim>\<open>readFileSync\<close> and \<^verbatim>\<open>readdirSync\<close> do there.
  \<^item> \<open>NoStat\<close>: \<^verbatim>\<open>statSync\<close> throws (no such path, no permission, a dangling link);
  \<^item> \<open>File d\<close>: a regular file holding \<open>d\<close>;
  \<^item> \<open>Dir (Some es)\<close>: a directory whose listing gives the names and nodes \<open>es\<close>, in
    this order; \<open>Dir None\<close>: a directory for which \<^verbatim>\<open>readdirSync\<close> throws;
  \<^item> \<open>Special\<close>: neither a file nor a directory (a socket, a pipe, a device).
  \<^verbatim>\<open>statSync\<close> follows links, so a link shows as what it points to.  A link that leads
  back to a directory above it repeats that directory below itself only until the
  path can no longer be resolved and \<^verbatim>\<open>statSync\<close> throws, so the tree is finite.
\<close>

datatype node =
    NoStat
  | File "char list option"
  | Dir "(jsstring \<times> node) list option"
  | Special

definition excluded :: "jsstring list" where
  "excluded = [js ''node_modules'', js ''.git'', js ''dist'']"

text \<open>
  \<open>walk n currentPath issues\<close> returns the findings collected so far, or the exception
  that left \<^verbatim>\<open>walk\<close>: the call of \<^verbatim>\<open>readdirSync\<close> is not inside a \<^verbatim>\<open>try\<close>.
\<close>

fun walk :: "node \<Rightarrow> jsstring \<Rightarrow> finding list \<Rightarrow> error + finding list"
  and walk_files :: "(jsstring \<times> node) list \<Rightarrow> jsstring \<Rightarrow> finding list \<Rightarrow> error + finding list"
where
  "walk NoStat currentPath issues = Inr issues"
| "walk (File d) currentPath issues = Inr (issues @ scanFile d currentPath)"
| "walk (Dir listing) currentPath issues =
     (let base = basename currentPath in
      if base \<in> set excluded then Inr issues
      else (case listing of
              None \<Rightarrow> Inl (ReaddirError currentPath)
            | Some files \<Rightarrow> walk_files files currentPath issues))"
| "walk Special currentPath issues = Inr issues"
| "walk_files [] currentPath issues = Inr issues"
| "walk_files ((file, n) # files) currentPath issues =
     (case walk n (join currentPath file) issues of
        Inl e \<Rightarrow> Inl e
      | Inr issues' \<Rightarrow> walk_files files currentPath issues')"

definition scanForSecrets :: "node \<Rightarrow> jsstring \<Rightarrow> error + finding list" where
  "scanForSecrets root targetPath = walk root targetPath []"

subsection \<open>The rule catalogue\<close>

text \<open>
  The rules as a catalogue: five rules on the file name and seventeen on the content,
  each with its trigger and the template of its finding.
\<close>

datatype rule =
    Env_file | Key_file | Config_file | Secret_name | Log_file
  | Aws_access_key | Aws_secret_key | Hardcoded_password | Private_key_content | Api_key
  | Stripe_key | Mongodb_uri | Postgres_uri | Jwt_token | Weak_hash
  | Plain_sha256 | Cookie_no_httponly | Cookie_no_secure | Default_credential | Sensitive_log
  | Public_s3 | Stack_trace

definition filename_rules :: "rule list" where
  "filename_rules = [Env_file, Key_file, Config_file, Secret_name, Log_file]"

definition content_rules :: "rule list" where
  "content_rules =
     [Aws_access_key, Aws_secret_key, Hardcoded_password, Private_key_content, Api_key,
      Stripe_key, Mongodb_uri, Postgres_uri, Jwt_token, Weak_hash,
      Plain_sha256, Cookie_no_httponly, Cookie_no_secure, Default_credential, Sensitive_log,
      Public_s3, Stack_trace]"

fun filename_rule :: "rule \<Rightarrow> jsstring \<Rightarrow> bool" where
  "filename_rule Env_file lower = (includesStr lower (js ''.env''))"
| "filename_rule Key_file lower = (includesStr lower (js ''id_rsa'') \<or> endsWith lower (js ''.pem''))"
| "filename_rule Config_file lower = (lower = js ''config.js'' \<or> lower = js ''config.json'')"
| "filename_rule Secret_name lower = (includesStr lower (js ''secret'') \<or> includesStr lower (js ''password''))"
| "filename_rule Log_file lower = (endsWith lower (js ''.log''))"
| "filename_rule r lower = False"

fun content_rule :: "rule \<Rightarrow> jsstring \<Rightarrow> bool" where
  "content_rule Aws_access_key content = (match_re re_aws_key content)"
| "content_rule Aws_secret_key content = (includesStr content (js ''AWS_SECRET_KEY''))"
| "content_rule Hardcoded_password content = (match_re re_password content)"
| "content_rule Private_key_content content = (includesStr content (js ''BEGIN PRIVATE KEY''))"
| "content_rule Api_key content = (match_re re_api_key content)"
| "content_rule Stripe_key content = (match_re re_stripe content)"
| "content_rule Mongodb_uri content = (match_re re_mongodb content)"
| "content_rule Postgres_uri content = (match_re re_postgres content)"
| "content_rule Jwt_token content = (match_re re_jwt content)"
| "content_rule Weak_hash content = (match_re re_weak_hash content)"
| "content_rule Plain_sha256 content = (match_re re_sha256 content)"
| "content_rule Cookie_no_httponly content = (match_re re_cookie content \<and> \<not> includesStr content (js ''HttpOnly''))"
| "content_rule Cookie_no_secure content = (match_re re_cookie content \<and> \<not> includesStr content (js ''Secure''))"
| "content_rule Default_credential content = (match_re re_default_cred content)"
| "content_rule Sensitive_log content = (match_re re_log_password content \<or> match_re re_log_token content)"
| "content_rule Public_s3 content = (match_re re_s3 content \<and> \<not> includesStr content (js ''private''))"
| "content_rule Stack_trace content = (match_re re_error content \<and> match_re re_stack_frame content)"
| "content_rule r content = False"

fun rule_category :: "rule \<Rightarrow> category" where
  "rule_category Env_file = Secrets"
| "rule_category Key_file = Secrets"
| "rule_category Config_file = Secrets"
| "rule_category Secret_name = Secrets"
| "rule_category Log_file = Logging"
| "rule_category Aws_access_key = Secrets"
| "rule_category Aws_secret_key = Secrets"
| "rule_category Hardcoded_password = Secrets"
| "rule_category Private_key_content = Secrets"
| "rule_category Api_key = Secrets"
| "rule_category Stripe_key = Secrets"
| "rule_category Mongodb_uri = Secrets"
| "rule_category Postgres_uri = Secrets"
| "rule_category Jwt_token = Secrets"
| "rule_category Weak_hash = Crypto"
| "rule_category Plain_sha256 = Crypto"
| "rule_category Cookie_no_httponly = Cookies"
| "rule_category Cookie_no_secure = Cookies"
| "rule_category Default_credential = Credentials"
| "rule_category Sensitive_log = Logging"
| "rule_category Public_s3 = Cloud"
| "rule_category Stack_trace = Errors"

fun rule_severity :: "rule \<Rightarrow> severity" where
  "rule_severity Env_file = Critical"
| "rule_severity Key_file = Critical"
| "rule_severity Config_file = High"
| "rule_severity Secret_name = High"
| "rule_severity Log_file = Low"
| "rule_severity Aws_access_key = Critical"
| "rule_severity Aws_secret_key = Critical"
| "rule_severity Hardcoded_password = Critical"
| "rule_severity Private_key_content = Critical"
| "rule_severity Api_key = Critical"
| "rule_severity Stripe_key = Critical"
| "rule_severity Mongodb_uri = High"
| "rule_severity Postgres_uri = High"
| "rule_severity Jwt_token = High"
| "rule_severity Weak_hash = High"
| "rule_severity Plain_sha256 = Medium"
| "rule_severity Cookie_no_httponly = High"
| "rule_severity Cookie_no_secure = High"
| "rule_severity Default_credential = Critical"
| "rule_severity Sensitive_log = Medium"
| "rule_severity Public_s3 = High"
| "rule_severity Stack_trace = Medium"

fun rule_message :: "rule \<Rightarrow> jsstring" where
  "rule_message Env_file = js ''Sensitive .env file detected: ''"
| "rule_message Key_file = js ''Private key detected: ''"
| "rule_message Config_file = js ''Config file may contain secrets: ''"
| "rule_message Secret_name = js ''Potential secret in filename: ''"
| "rule_message Log_file = js ''Debug log file detected: ''"
| "rule_message Aws_access_key = js ''AWS Access Key found in ''"
| "rule_message Aws_secret_key = js ''AWS secret key reference in ''"
| "rule_message Hardcoded_password = js ''Hardcoded password found in ''"
| "rule_message Private_key_content = js ''Private key content found in ''"
| "rule_message Api_key = js ''API key found in ''"
| "rule_message Stripe_key = js ''Stripe live secret key found in ''"
| "rule_message Mongodb_uri = js ''MongoDB connection string found in ''"
| "rule_message Postgres_uri = js ''Postgres connection string found in ''"
| "rule_message Jwt_token = js ''JWT token found in ''"
| "rule_message Weak_hash = js ''Weak crypto algorithm (MD5/SHA1) used in ''"
| "rule_message Plain_sha256 = js ''Plain SHA256 used for password hashing in ''"
| "rule_message Cookie_no_httponly = js ''Cookie set without HttpOnly flag in ''"
| "rule_message Cookie_no_secure = js ''Cookie set without Secure flag in ''"
| "rule_message Default_credential = js ''Default credential found in ''"
| "rule_message Sensitive_log = js ''Sensitive data logged in ''"
| "rule_message Public_s3 = js ''Potential public S3 bucket reference in ''"
| "rule_message Stack_trace = js ''Stack trace exposure risk in ''"

fun rule_hint :: "rule \<Rightarrow> jsstring" where
  "rule_hint Env_file = js ''Never commit .env files. Use environment variables or secret managers.''"
| "rule_hint Key_file = js ''Remove private keys from repos. Store them securely outside version control.''"
| "rule_hint Config_file = js ''Check config files for hardcoded credentials. Move sensitive values to env vars.''"
| "rule_hint Secret_name = js ''Avoid naming files with 'secret' or 'password'. It signals sensitive content.''"
| "rule_hint Log_file = js ''Logs may leak sensitive data. Avoid committing them.''"
| "rule_hint Aws_access_key = js ''Rotate AWS keys and use IAM roles instead of hardcoding.''"
| "rule_hint Aws_secret_key = js ''Remove AWS secrets from code. Use environment variables or secret managers.''"
| "rule_hint Hardcoded_password = js ''Never hardcode passwords. Use env vars or secure vaults.''"
| "rule_hint Private_key_content = js ''Remove private keys from source code. Store them securely.''"
| "rule_hint Api_key = js ''Rotate API keys and store them outside code.''"
| "rule_hint Stripe_key = js ''Use test keys in dev. Never commit live keys.''"
| "rule_hint Mongodb_uri = js ''Move DB connection strings to env vars.''"
| "rule_hint Postgres_uri = js ''Store DB credentials securely outside code.''"
| "rule_hint Jwt_token = js ''Never commit JWTs. Generate them dynamically.''"
| "rule_hint Weak_hash = js ''Use bcrypt, Argon2, or SHA256+salt for secure hashing.''"
| "rule_hint Plain_sha256 = js ''Use adaptive algorithms like bcrypt or Argon2 for password storage.''"
| "rule_hint Cookie_no_httponly = js ''Add { httpOnly: true } to cookies to prevent XSS attacks.''"
| "rule_hint Cookie_no_secure = js ''Add { secure: true } to cookies to enforce HTTPS.''"
| "rule_hint Default_credential = js ''Remove default creds. Enforce strong unique passwords.''"
| "rule_hint Sensitive_log = js ''Avoid logging passwords or tokens. Use masked logs.''"
| "rule_hint Public_s3 = js ''Ensure S3 buckets are private and access'' @ 8209 # js ''controlled.''"
| "rule_hint Stack_trace = js ''Disable stack traces in production. Use generic error messages.''"

definition rule_finding :: "rule \<Rightarrow> jsstring \<Rightarrow> finding" where
  "rule_finding r filePath =
     \<lparr>category = rule_category r, severity = rule_severity r,
      message = rule_message r @ filePath, hint = rule_hint r\<rparr>"

text \<open>The rules that a file triggers, given its path and what reading it gives.\<close>

definition triggered_filename_rules :: "jsstring \<Rightarrow> rule list" where
  "triggered_filename_rules filePath =
     filter (\<lambda>r. filename_rule r (toLowerCase (basename filePath))) filename_rules"

definition triggered_content_rules :: "char list option \<Rightarrow> rule list" where
  "triggered_content_rules fileData =
     (case readFileSync fileData of
        Inl e \<Rightarrow> []
      | Inr content \<Rightarrow> filter (\<lambda>r. content_rule r content) content_rules)"

subsection \<open>Properties of trees\<close>

text \<open>
  A name as a directory listing gives it: not empty, without a slash, and neither
  \<^verbatim>\<open>.\<close> nor \<^verbatim>\<open>..\<close>.
\<close>

definition entry_name :: "jsstring \<Rightarrow> bool" where
  "entry_name file = (file \<noteq> [] \<and> 47 \<notin> set file \<and> file \<noteq> js ''.'' \<and> file \<noteq> js ''..'')"

text \<open>
  \<open>hide n\<close> is the tree \<open>n\<close> in which every directory that a listing gives under the
  name \<^verbatim>\<open>node_modules\<close>, \<^verbatim>\<open>.git\<close> or \<^verbatim>\<open>dist\<close> has lost all its entries;
  \<open>named n\<close> says that the names in the listings of \<open>n\<close> are entry names.
\<close>

definition empty_dir :: "node \<Rightarrow> node" where
  "empty_dir n = (case n of Dir listing \<Rightarrow> Dir (Some []) | _ \<Rightarrow> n)"

fun hide :: "node \<Rightarrow> node"
  and hide_files :: "(jsstring \<times> node) list \<Rightarrow> (jsstring \<times> node) list"
where
  "hide NoStat = NoStat"
| "hide (File d) = File d"
| "hide (Dir listing) = Dir (map_option hide_files listing)"
| "hide Special = Special"
| "hide_files [] = []"
| "hide_files ((file, n) # files) =
     (file, if file \<in> set excluded then empty_dir n else hide n) # hide_files files"

fun named :: "node \<Rightarrow> bool"
  and named_files :: "(jsstring \<times> node) list \<Rightarrow> bool"
where
  "named NoStat = True"
| "named (File d) = True"
| "named (Dir listing) = (case listing of None \<Rightarrow> True | Some files \<Rightarrow> named_files files)"
| "named Special = True"
| "named_files [] = True"
| "named_files ((file, n) # files) = (entry_name file \<and> named n \<and> named_files files)"

text \<open>\<open>listable n\<close>: \<^verbatim>\<open>readdirSync\<close> succeeds on every directory of the tree.\<close>

fun listable :: "node \<Rightarrow> bool"
  and listable_files :: "(jsstring \<times> node) list \<Rightarrow> bool"
where
  "listable NoStat = True"
| "listable (File d) = True"
| "listable (Dir listing) = (case listing of None \<Rightarrow> False | Some files \<Rightarrow> listable_files files)"
| "listable Special = True"
| "listable_files [] = True"
| "listable_files ((file, n) # files) = (listable n \<and> listable_files files)"


section \<open>The report archive of the API server\<close>

text \<open>
  A stored scan keeps the issues it was reported with and the time stamp of the report.
  The handler only ever looks at \<^verbatim>\<open>new Date(scan.scannedAt)\<close>, so the model keeps
  that value: a time in milliseconds, or the invalid date when the stored value does
  not parse as one (or is missing).
\<close>

datatype date = Date int | InvalidDate

record 'i scan =
  scan_issues :: 'i
  scannedAt :: date

record 'i repo =
  repoName :: jsstring
  sourceType :: jsstring
  sourceUrl :: "jsstring option"
  scans :: "'i scan list"
  verified :: bool

record stats =
  totalIssuesDetected :: nat
  totalScans :: nat

record 'i data =
  repos :: "'i repo list"
  stats :: stats

record 'i archived =
  archived_repoName :: jsstring
  fileIssues :: 'i
  archived_scannedAt :: date

text \<open>The difference of two dates is a number, or NaN (\<open>None\<close>) when one is invalid.\<close>

definition date_minus :: "date \<Rightarrow> date \<Rightarrow> int option" where
  "date_minus a b =
     (case a of
        InvalidDate \<Rightarrow> None
      | Date x \<Rightarrow> (case b of InvalidDate \<Rightarrow> None | Date y \<Rightarrow> Some (x - y)))"

text \<open>
  \<^verbatim>\<open>Array.prototype.sort(comparefn)\<close>.  The comparison treats NaN as zero.  The sort is
  stable; it is modelled by insertion: an element goes behind the elements that the
  comparison puts strictly before it, and in front of all others.  For a comparison that
  orders the elements consistently every stable sort gives this result.  For one that
  does not, the language leaves the order to the engine; Node's engine first looks for a
  run that is already in order by comparing neighbours, and like the insertion it leaves
  a list alone in which no element compares below its left neighbour.
\<close>

definition sortCompare :: "('a \<Rightarrow> 'a \<Rightarrow> int option) \<Rightarrow> 'a \<Rightarrow> 'a \<Rightarrow> int" where
  "sortCompare comparefn x y = (case comparefn x y of None \<Rightarrow> 0 | Some v \<Rightarrow> v)"

fun insert_sorted :: "('a \<Rightarrow> 'a \<Rightarrow> int option) \<Rightarrow> 'a \<Rightarrow> 'a list \<Rightarrow> 'a list" where
  "insert_sorted comparefn x [] = [x]"
| "insert_sorted comparefn x (y # ys) =
     (if sortCompare comparefn y x < 0 then y # insert_sorted comparefn x ys else x # y # ys)"

definition array_sort :: "('a \<Rightarrow> 'a \<Rightarrow> int option) \<Rightarrow> 'a list \<Rightarrow> 'a list" where
  "array_sort comparefn xs = foldr (insert_sorted comparefn) xs []"

text \<open>\<^verbatim>\<open>(a, b) => new Date(b.scannedAt) - new Date(a.scannedAt)\<close>\<close>

definition newest_first :: "'i archived \<Rightarrow> 'i archived \<Rightarrow> int option" where
  "newest_first a b = date_minus (archived_scannedAt b) (archived_scannedAt a)"

text \<open>The two nested loops of the handler, and the handler.\<close>

definition allScans :: "'i data \<Rightarrow> 'i archived list" where
  "allScans d =
     concat (map (\<lambda>repo. map (\<lambda>scan. \<lparr>archived_repoName = repoName repo,
                                          fileIssues = scan_issues scan,
                                          archived_scannedAt = scannedAt scan\<rparr>) (scans repo))
                 (repos d))"

definition get_scans :: "'i data \<Rightarrow> 'i archived list" where
  "get_scans d = array_sort newest_first (allScans d)"

text \<open>
  \<open>not_older a b\<close>: nothing speaks against \<open>a\<close> standing before \<open>b\<close> in a list with the
  newest first; two valid dates are compared, an invalid one constrains nothing.
\<close>

definition not_older :: "'i archived \<Rightarrow> 'i archived \<Rightarrow> bool" where
  "not_older a b =
     (case archived_scannedAt a of
        InvalidDate \<Rightarrow> True
      | Date s \<Rightarrow> (case archived_scannedAt b of InvalidDate \<Rightarrow> True | Date t \<Rightarrow> t \<le> s))"

definition valid_date :: "date \<Rightarrow> bool" where
  "valid_date d = (case d of Date t \<Rightarrow> True | InvalidDate \<Rightarrow> False)"


section \<open>The matcher and the language of a pattern\<close>

lemma nullable_lang: "nullable r \<longleftrightarrow> [] \<in> lang r"
  by (induction r) (auto simp: conc_def intro: star.intros)

lemma star_cons_iff:
  "c # w \<in> star A \<longleftrightarrow> (\<exists>u v. w = u @ v \<and> c # u \<in> A \<and> v \<in> star A)"
proof
  assume "c # w \<in> star A"
  then show "\<exists>u v. w = u @ v \<and> c # u \<in> A \<and> v \<in> star A"
  proof (induction "c # w" rule: star.induct)
    case (star_app u v)
    show ?case
    proof (cases u)
      case Nil
      with star_app show ?thesis by simp
    next
      case (Cons a u')
      with star_app show ?thesis by auto
    qed
  qed
next
  assume "\<exists>u v. w = u @ v \<and> c # u \<in> A \<and> v \<in> star A"
  then obtain u v where "w = u @ v" "c # u \<in> A" "v \<in> star A" by blast
  then show "c # w \<in> star A"
    using star.star_app [of "c # u" A v] by simp
qed

lemma conc_cons_iff:
  "c # w \<in> conc A B \<longleftrightarrow>
     ([] \<in> A \<and> c # w \<in> B) \<or> (\<exists>u v. w = u @ v \<and> c # u \<in> A \<and> v \<in> B)"
  unfolding conc_def by (auto simp: Cons_eq_append_conv)

lemma lang_deriv: "w \<in> lang (deriv c r) \<longleftrightarrow> c # w \<in> lang r"
proof (induction r arbitrary: w)
  case (Seq r s)
  then show ?case
    by (auto simp: conc_cons_iff nullable_lang) (auto simp: conc_def)
next
  case (Star r)
  then show ?case
    by (auto simp: star_cons_iff) (auto simp: conc_def)
qed auto

lemma match_at_iff: "match_at r s \<longleftrightarrow> (\<exists>u v. s = u @ v \<and> u \<in> lang r)"
proof (induction s arbitrary: r)
  case Nil
  then show ?case by (simp add: nullable_lang)
next
  case (Cons c cs)
  show ?case
  proof
    assume "match_at r (c # cs)"
    then consider "nullable r" | "match_at (deriv c r) cs" by auto
    then show "\<exists>u v. c # cs = u @ v \<and> u \<in> lang r"
    proof cases
      case 1
      then have "c # cs = [] @ (c # cs) \<and> [] \<in> lang r" by (simp add: nullable_lang)
      then show ?thesis by blast
    next
      case 2
      then obtain u v where "cs = u @ v" "u \<in> lang (deriv c r)" using Cons.IH by blast
      then have "c # cs = (c # u) @ v \<and> c # u \<in> lang r" by (simp add: lang_deriv)
      then show ?thesis by blast
    qed
  next
    assume "\<exists>u v. c # cs = u @ v \<and> u \<in> lang r"
    then obtain u v where uv: "c # cs = u @ v" "u \<in> lang r" by blast
    show "match_at r (c # cs)"
    proof (cases u)
      case Nil
      with uv have "nullable r" by (simp add: nullable_lang)
      then show ?thesis by simp
    next
      case (Cons a u')
      with uv have "cs = u' @ v" "u' \<in> lang (deriv c r)" by (auto simp: lang_deriv)
      then show ?thesis using Cons.IH by auto
    qed
  qed
qed

lemma match_re_iff: "match_re r s \<longleftrightarrow> (\<exists>p u v. s = p @ u @ v \<and> u \<in> lang r)"
proof (induction s)
  case Nil
  then show ?case by (simp add: nullable_lang)
next
  case (Cons c cs)
  show ?case
  proof
    assume "match_re r (c # cs)"
    then consider "match_at r (c # cs)" | "match_re r cs" by auto
    then show "\<exists>p u v. c # cs = p @ u @ v \<and> u \<in> lang r"
    proof cases
      case 1
      then obtain u v where "c # cs = [] @ u @ v \<and> u \<in> lang r"
        by (auto simp: match_at_iff)
      then show ?thesis by blast
    next
      case 2
      then obtain p u v where "cs = p @ u @ v" "u \<in> lang r" using Cons.IH by blast
      then have "c # cs = (c # p) @ u @ v \<and> u \<in> lang r" by simp
      then show ?thesis by blast
    qed
  next
    assume "\<exists>p u v. c # cs = p @ u @ v \<and> u \<in> lang r"
    then obtain p u v where puv: "c # cs = p @ u @ v" "u \<in> lang r" by blast
    show "match_re r (c # cs)"
    proof (cases p)
      case Nil
      with puv have "c # cs = u @ v" by simp
      with puv(2) have "match_at r (c # cs)" unfolding match_at_iff by blast
      then show ?thesis by simp
    next
      case (Cons a p')
      with puv have "cs = p' @ u @ v" by simp
      with puv(2) have "match_re r cs" using Cons.IH by blast
      then show ?thesis by simp
    qed
  qed
qed

subsection \<open>Evaluating a match\<close>

declare match_at.simps [simp del]

lemma match_at_Zero: "match_at Zero s = False"
  by (simp add: match_at_iff)

lemma match_at_One: "match_at One s = True"
  by (simp add: match_at_iff)

lemma match_at_Alt: "match_at (Alt a b) s = (match_at a s \<or> match_at b s)"
  by (auto simp: match_at_iff)

lemma match_at_Seq_iff:
  "match_at (Seq a r) s \<longleftrightarrow> (\<exists>u v. s = u @ v \<and> u \<in> lang a \<and> match_at r v)"
  unfolding match_at_iff
proof
  assume "\<exists>u v. s = u @ v \<and> u \<in> lang (Seq a r)"
  then obtain u v where "s = u @ v" "u \<in> conc (lang a) (lang r)" by auto
  then obtain x y where "s = x @ (y @ v)" "x \<in> lang a" "y \<in> lang r"
    by (auto simp: conc_def)
  then show "\<exists>u v. s = u @ v \<and> u \<in> lang a \<and> (\<exists>u va. v = u @ va \<and> u \<in> lang r)"
    by blast
next
  assume "\<exists>u v. s = u @ v \<and> u \<in> lang a \<and> (\<exists>u va. v = u @ va \<and> u \<in> lang r)"
  then obtain x y v where "s = x @ (y @ v)" "x \<in> lang a" "y \<in> lang r" by blast
  then have "s = (x @ y) @ v \<and> x @ y \<in> lang (Seq a r)" by (auto simp: conc_def)
  then show "\<exists>u v. s = u @ v \<and> u \<in> lang (Seq a r)" by blast
qed

lemma match_at_Seq_One: "match_at (Seq One r) s = match_at r s"
  by (simp add: match_at_Seq_iff)

lemma match_at_Seq_Zero: "match_at (Seq Zero r) s = False"
  by (simp add: match_at_Seq_iff)

lemma match_at_Atom: "match_at (Atom p) [] = False" "match_at (Atom p) (c # cs) = p c"
  by (simp_all add: match_at.simps match_at_One match_at_Zero)

lemma match_at_Seq_Atom:
  "match_at (Seq (Atom p) r) [] = False"
  "match_at (Seq (Atom p) r) (c # cs) = (p c \<and> match_at r cs)"
  by (simp_all add: match_at.simps match_at_Seq_One match_at_Seq_Zero)

lemma conc_assoc: "conc (conc A B) C = conc A (conc B C)"
proof
  show "conc (conc A B) C \<subseteq> conc A (conc B C)"
  proof
    fix w assume "w \<in> conc (conc A B) C"
    then obtain a b c where "w = (a @ b) @ c" "a \<in> A" "b \<in> B" "c \<in> C"
      unfolding conc_def by blast
    then have "w = a @ (b @ c) \<and> a \<in> A \<and> b @ c \<in> conc B C"
      unfolding conc_def by auto
    then show "w \<in> conc A (conc B C)"
      unfolding conc_def by blast
  qed
  show "conc A (conc B C) \<subseteq> conc (conc A B) C"
  proof
    fix w assume "w \<in> conc A (conc B C)"
    then obtain a b c where "w = a @ (b @ c)" "a \<in> A" "b \<in> B" "c \<in> C"
      unfolding conc_def by blast
    then have "w = (a @ b) @ c \<and> a @ b \<in> conc A B \<and> c \<in> C"
      unfolding conc_def by auto
    then show "w \<in> conc (conc A B) C"
      unfolding conc_def by blast
  qed
qed

lemma conc_insert_Nil: "conc (insert [] A) B = B \<union> conc A B"
  unfolding conc_def by auto

lemma match_at_Seq_Seq: "match_at (Seq (Seq a b) r) s = match_at (Seq a (Seq b r)) s"
proof -
  have "lang (Seq (Seq a b) r) = lang (Seq a (Seq b r))"
    by (simp add: conc_assoc)
  then show ?thesis by (simp only: match_at_iff)
qed

lemma match_at_Seq_Alt:
  "match_at (Seq (Alt a b) r) s = (match_at (Seq a r) s \<or> match_at (Seq b r) s)"
  by (auto simp: match_at_Seq_iff)

lemma star_unfold: "star A = insert [] (conc A (star A))"
proof
  show "star A \<subseteq> insert [] (conc A (star A))"
  proof
    fix w assume "w \<in> star A"
    then show "w \<in> insert [] (conc A (star A))"
      by (cases rule: star.cases) (auto simp: conc_def)
  qed
  show "insert [] (conc A (star A)) \<subseteq> star A"
    by (auto simp: conc_def intro: star.intros)
qed

lemma match_at_Seq_Star:
  "match_at (Seq (Star a) r) s = (match_at r s \<or> match_at (Seq a (Seq (Star a) r)) s)"
proof -
  have "lang (Seq (Star a) r) = lang r \<union> lang (Seq a (Seq (Star a) r))"
  proof -
    have "conc (star (lang a)) (lang r)
          = conc (insert [] (conc (lang a) (star (lang a)))) (lang r)"
      using star_unfold [of "lang a"] by simp
    also have "\<dots> = lang r \<union> conc (lang a) (conc (star (lang a)) (lang r))"
      by (simp add: conc_insert_Nil conc_assoc)
    finally show ?thesis by simp
  qed
  then show ?thesis by (auto simp: match_at_iff)
qed

lemma match_at_Seq_Star_Atom:
  "match_at (Seq (Star (Atom p)) r) [] = match_at r []"
  "match_at (Seq (Star (Atom p)) r) (c # cs) =
     (match_at r (c # cs) \<or> (p c \<and> match_at (Seq (Star (Atom p)) r) cs))"
  by (subst match_at_Seq_Star, simp add: match_at_Seq_Atom)+

lemma match_at_Star: "match_at (Star r) s = True"
  by (simp add: match_at_iff exI [of _ "[]"] star.intros)

text \<open>
  The same facts as conditional equations: the simplifier then evaluates a match from
  left to right and leaves a branch as soon as it fails.
\<close>

lemma match_eval:
  "match_at Zero s = False"
  "match_at One s = True"
  "match_at (Star a) s = True"
  "match_at (Atom p) [] = False"
  "match_at (Atom p) (c # cs) = p c"
  "match_at (Alt a b) s = (if match_at a s then True else match_at b s)"
  "match_at (Seq One r) s = match_at r s"
  "match_at (Seq (Atom p) r) [] = False"
  "match_at (Seq (Atom p) r) (c # cs) = (if p c then match_at r cs else False)"
  "match_at (Seq (Seq a b) r) s = match_at (Seq a (Seq b r)) s"
  "match_at (Seq (Alt a b) r) s = (if match_at (Seq a r) s then True else match_at (Seq b r) s)"
  "match_at (Seq (Star (Atom p)) r) [] = match_at r []"
  "match_at (Seq (Star (Atom p)) r) (c # cs) =
     (if match_at r (c # cs) then True
      else if p c then match_at (Seq (Star (Atom p)) r) cs else False)"
  "match_re r [] = nullable r"
  "match_re r (c # cs) = (if match_at r (c # cs) then True else match_re r cs)"
  by (simp_all add: match_at_Zero match_at_One match_at_Star match_at_Atom match_at_Alt
        match_at_Seq_One match_at_Seq_Atom match_at_Seq_Seq match_at_Seq_Alt
        match_at_Seq_Star_Atom)

declare match_re.simps [simp del]

lemmas pattern_defs =
  seqs_def lit_def ilit_def chr_def ichr_def plus_re_def opt_re_def at_least_def
  space_def nonspace_def dot_def quote_def base64url_def canonicalize_def
  line_terminator_def white_space_def digit_def upper_AZ_def lower_az_def
  re_aws_key_def re_password_def re_api_key_def re_stripe_def re_mongodb_def re_postgres_def
  re_jwt_def re_weak_hash_def re_sha256_def re_cookie_def re_default_cred_def
  re_log_password_def re_log_token_def re_s3_def re_error_def re_stack_frame_def


lemma match_at_append: "match_at r u \<Longrightarrow> match_at r (u @ v)"
  unfolding match_at_iff by (metis append.assoc)

lemma match_re_sublist: "match_at r t \<Longrightarrow> sublist t s \<Longrightarrow> match_re r s"
  unfolding match_at_iff match_re_iff sublist_def by (metis append.assoc)

lemma rep_numeral: "rep (numeral k) r = Seq r (rep (pred_numeral k) r)"
  by (simp add: numeral_eq_Suc)

lemmas string_eval =
  js_def includesStr_def endsWith_def toLowerCase_def lower_unit_def basename_def
  sublist_code(3) suffix_to_prefix

lemmas read_eval = readFileSync_def cont_def second_ok_def surrogates_def

lemmas content_eval = string_eval read_eval pattern_defs match_eval rep_numeral


section \<open>The file scanner and the catalogue\<close>

lemma push_if_append: "push_if c f xs = xs @ (if c then [f] else [])"
  by (simp add: push_if_def)

lemma map_filter_Cons:
  "map g (filter P (x # xs)) = (if P x then [g x] else []) @ map g (filter P xs)"
  by simp

lemma map_filter_Nil: "map g (filter P []) = []"
  by simp

lemma scanFile_catalogue:
  "scanFile fileData filePath =
     map (\<lambda>r. rule_finding r filePath) (triggered_filename_rules filePath)
     @ map (\<lambda>r. rule_finding r filePath) (triggered_content_rules fileData)"
proof (cases "readFileSync fileData")
  case (Inl e)
  show ?thesis
    unfolding scanFile_def triggered_filename_rules_def triggered_content_rules_def
      filename_rules_def content_rules_def Let_def push_if_append map_filter_Cons map_filter_Nil Inl
      rule_finding_def filename_rule.simps content_rule.simps rule_category.simps rule_severity.simps
      rule_message.simps rule_hint.simps sum.case
    by (simp only: append_assoc append_Nil append_Nil2 list.map)
next
  case (Inr content)
  show ?thesis
    unfolding scanFile_def triggered_filename_rules_def triggered_content_rules_def
      filename_rules_def content_rules_def Let_def push_if_append map_filter_Cons map_filter_Nil Inr
      rule_finding_def filename_rule.simps content_rule.simps rule_category.simps rule_severity.simps
      rule_message.simps rule_hint.simps sum.case
    by (simp only: append_assoc append_Nil append_Nil2 list.map)
qed

lemma js_inject: "js s = js t \<longleftrightarrow> s = t"
  unfolding js_def by (simp add: inj_on_def)

lemma rule_hint_inj: "rule_hint r = rule_hint r' \<Longrightarrow> r = r'"
  by (cases r; cases r'; simp add: js_inject; simp add: js_def)

lemma rule_finding_inj: "rule_finding r p = rule_finding r' p \<longleftrightarrow> r = r'"
  by (auto simp: rule_finding_def dest: rule_hint_inj)

lemma set_scanFile:
  "set (scanFile fileData filePath) =
     (\<lambda>r. rule_finding r filePath) `
       (set (triggered_filename_rules filePath) \<union> set (triggered_content_rules fileData))"
  unfolding scanFile_catalogue by auto

lemma rule_finding_in_scanFile:
  "rule_finding r filePath \<in> set (scanFile fileData filePath) \<longleftrightarrow>
     r \<in> set (triggered_filename_rules filePath) \<union> set (triggered_content_rules fileData)"
  unfolding set_scanFile by (auto simp: rule_finding_inj)

text \<open>
  C2.  For every regular file, \<open>scanFile\<close> returns the findings of the triggered
  file-name rules, in the order of the catalogue (rules 1 to 5), followed by the
  findings of the triggered content rules, in the order of the catalogue (rules 1 to
  17); no rule occurs twice among the triggered ones, so each contributes at most one
  finding.
\<close>

theorem scanFile_ordered_union:
  "scanFile fileData filePath =
     map (\<lambda>r. rule_finding r filePath) (triggered_filename_rules filePath)
     @ map (\<lambda>r. rule_finding r filePath) (triggered_content_rules fileData)
   \<and> distinct (triggered_filename_rules filePath @ triggered_content_rules fileData)"
proof -
  have "distinct (filename_rules @ content_rules)"
    by (simp add: filename_rules_def content_rules_def)
  then have "distinct (filter (\<lambda>r. filename_rule r (toLowerCase (basename filePath))) filename_rules
                @ filter P content_rules)" for P
    by auto
  then have "distinct (triggered_filename_rules filePath @ triggered_content_rules fileData)"
    unfolding triggered_filename_rules_def triggered_content_rules_def
    by (cases "readFileSync fileData") simp_all
  then show ?thesis
    using scanFile_catalogue [of fileData filePath] by simp
qed

theorem scanFile_ordered_union_witness:
  "scanFile (Some ''AWS_SECRET_KEY=1'') (js ''app/.env'') =
     [rule_finding Env_file (js ''app/.env''), rule_finding Aws_secret_key (js ''app/.env'')]"
proof -
  have f: "triggered_filename_rules (js ''app/.env'') = [Env_file]"
    by (simp add: triggered_filename_rules_def filename_rules_def string_eval)
  have c: "triggered_content_rules (Some ''AWS_SECRET_KEY=1'') = [Aws_secret_key]"
    by (simp add: triggered_content_rules_def content_rules_def content_eval)
  show ?thesis
    using scanFile_ordered_union [of "Some ''AWS_SECRET_KEY=1''" "js ''app/.env''"]
    by (simp only: f c list.map append_Cons append_Nil)
qed

text \<open>
  C8.  Every finding that \<open>scanFile\<close> produces, from a rule on the name or on the
  content, comes from a rule of the catalogue: its category, severity and hint are the
  ones of that rule, whatever the file, and its message is the rule's text followed by
  the path of the scanned file, which it therefore contains.
\<close>

theorem finding_determined_by_rule:
  "\<forall>f \<in> set (scanFile fileData filePath).
     \<exists>r \<in> set (filename_rules @ content_rules).
       category f = rule_category r \<and> severity f = rule_severity r \<and> hint f = rule_hint r
       \<and> message f = rule_message r @ filePath \<and> includesStr (message f) filePath"
proof
  fix f assume "f \<in> set (scanFile fileData filePath)"
  then obtain r where r: "f = rule_finding r filePath"
      "r \<in> set (triggered_filename_rules filePath) \<union> set (triggered_content_rules fileData)"
    unfolding set_scanFile by blast
  from r(2) have "r \<in> set (filename_rules @ content_rules)"
    by (auto simp: triggered_filename_rules_def triggered_content_rules_def split: sum.splits)
  moreover have "includesStr (rule_message r @ filePath) filePath"
    by (simp add: includesStr_def)
  ultimately show "\<exists>r \<in> set (filename_rules @ content_rules).
       category f = rule_category r \<and> severity f = rule_severity r \<and> hint f = rule_hint r
       \<and> message f = rule_message r @ filePath \<and> includesStr (message f) filePath"
    using r(1) by (auto simp: rule_finding_def)
qed

theorem finding_determined_by_rule_witness:
  "rule_finding Log_file (js ''logs/Debug.LOG'') \<in> set (scanFile None (js ''logs/Debug.LOG''))
   \<and> includesStr (message (rule_finding Log_file (js ''logs/Debug.LOG''))) (js ''logs/Debug.LOG'')"
proof -
  have "triggered_filename_rules (js ''logs/Debug.LOG'') = [Log_file]"
    by (simp add: triggered_filename_rules_def filename_rules_def string_eval)
  then have m: "rule_finding Log_file (js ''logs/Debug.LOG'') \<in> set (scanFile None (js ''logs/Debug.LOG''))"
    by (simp add: rule_finding_in_scanFile)
  show ?thesis
    using finding_determined_by_rule [of None "js ''logs/Debug.LOG''"] m by blast
qed

text \<open>The decoder on well-formed and on ill-formed bytes.\<close>

lemma utf8_decode_examples:
  "utf8_decode [104, 105] = [104, 105]"
  "utf8_decode [195, 169] = [233]"
  "utf8_decode [226, 130, 172] = [8364]"
  "utf8_decode [240, 159, 152, 128] = [55357, 56832]"
  "utf8_decode [255, 104] = [65533, 104]"
  "utf8_decode [226, 130, 104] = [65533, 104]"
  "utf8_decode [192, 128] = [65533, 65533]"
  by (simp_all add: cont_def second_ok_def surrogates_def)

lemma scanFile_unreadable:
  "scanFile None filePath = map (\<lambda>r. rule_finding r filePath) (triggered_filename_rules filePath)"
  by (simp add: scanFile_catalogue triggered_content_rules_def readFileSync_def)

text \<open>
  C4.  A file that cannot be read yields the findings of its name alone
  (\<open>scanFile_unreadable\<close>).  A file whose bytes are not well-formed UTF-8 is read all
  the same: the ill-formed bytes become U+FFFD and the content rules run on the result.
  Here the file \<^verbatim>\<open>blob.bin\<close> starts with the bytes FF FE, which no UTF-8 text contains,
  and the scan reports the content finding for \<^verbatim>\<open>AWS_SECRET_KEY\<close>.
\<close>

theorem binary_file_content_is_scanned:
  "readFileSync (Some (CHR 0xFF # CHR 0xFE # ''AWS_SECRET_KEY''))
     = Inr (65533 # 65533 # js ''AWS_SECRET_KEY'')
   \<and> scanFile (Some (CHR 0xFF # CHR 0xFE # ''AWS_SECRET_KEY'')) (js ''blob.bin'')
     = [rule_finding Aws_secret_key (js ''blob.bin'')]"
proof -
  have rd: "readFileSync (Some (CHR 0xFF # CHR 0xFE # ''AWS_SECRET_KEY''))
     = Inr (65533 # 65533 # js ''AWS_SECRET_KEY'')"
    by (simp add: read_eval js_def)
  have f: "triggered_filename_rules (js ''blob.bin'') = []"
    by (simp add: triggered_filename_rules_def filename_rules_def string_eval)
  have c: "triggered_content_rules (Some (CHR 0xFF # CHR 0xFE # ''AWS_SECRET_KEY'')) = [Aws_secret_key]"
    unfolding triggered_content_rules_def rd
    by (simp add: content_rules_def content_eval)
  show ?thesis
    using rd by (simp only: scanFile_catalogue f c list.map append_Nil simp_thms)
qed

lemma triggered_content_rules_Inr:
  "readFileSync fileData = Inr content \<Longrightarrow>
     triggered_content_rules fileData = filter (\<lambda>r. content_rule r content) content_rules"
  by (simp add: triggered_content_rules_def)

text \<open>
  C6.  A file whose text contains \<^verbatim>\<open>password = "hunter2"\<close> triggers the rule on
  hard-coded passwords, whose finding is of category Secrets and severity Critical; the
  file whose text is \<^verbatim>\<open>password=hunter2\<close>, the value without quotes, yields no finding
  of that rule.
\<close>

theorem hardcoded_password_rule:
  "(readFileSync fileData = Inr content \<longrightarrow>
      includesStr content (js ''password = \"hunter2\"'') \<longrightarrow>
        rule_finding Hardcoded_password filePath \<in> set (scanFile fileData filePath)
        \<and> category (rule_finding Hardcoded_password filePath) = Secrets
        \<and> severity (rule_finding Hardcoded_password filePath) = Critical)
   \<and> rule_finding Hardcoded_password filePath \<notin> set (scanFile (Some ''password=hunter2'') filePath)"
proof (intro conjI impI)
  assume rd: "readFileSync fileData = Inr content"
    and inc: "includesStr content (js ''password = \"hunter2\"'')"
  have "match_at re_password (js ''password = \"hunter2\"'')"
    by (simp add: content_eval)
  then have "match_re re_password content"
    using inc unfolding includesStr_def by (rule match_re_sublist)
  then have "Hardcoded_password \<in> set (triggered_content_rules fileData)"
    by (simp add: triggered_content_rules_Inr [OF rd] content_rules_def)
  then show "rule_finding Hardcoded_password filePath \<in> set (scanFile fileData filePath)"
    by (simp add: rule_finding_in_scanFile)
next
  show "category (rule_finding Hardcoded_password filePath) = Secrets"
    by (simp add: rule_finding_def)
  show "severity (rule_finding Hardcoded_password filePath) = Critical"
    by (simp add: rule_finding_def)
next
  have "triggered_content_rules (Some ''password=hunter2'') = []"
    by (simp add: triggered_content_rules_def content_rules_def content_eval)
  moreover have "Hardcoded_password \<notin> set (triggered_filename_rules filePath)"
    by (simp add: triggered_filename_rules_def filename_rules_def)
  ultimately show
    "rule_finding Hardcoded_password filePath \<notin> set (scanFile (Some ''password=hunter2'') filePath)"
    by (simp add: rule_finding_in_scanFile)
qed

theorem hardcoded_password_rule_witness:
  "readFileSync (Some ''const password = \"hunter2\";'') = Inr (js ''const password = \"hunter2\";'')
   \<and> includesStr (js ''const password = \"hunter2\";'') (js ''password = \"hunter2\"'')
   \<and> rule_finding Hardcoded_password (js ''src/db.js'')
       \<in> set (scanFile (Some ''const password = \"hunter2\";'') (js ''src/db.js''))"
proof -
  have rd: "readFileSync (Some ''const password = \"hunter2\";'') = Inr (js ''const password = \"hunter2\";'')"
    by (simp add: read_eval js_def)
  have inc: "includesStr (js ''const password = \"hunter2\";'') (js ''password = \"hunter2\"'')"
    by (simp add: string_eval)
  show ?thesis
    using hardcoded_password_rule [of "Some ''const password = \"hunter2\";''"
        "js ''const password = \"hunter2\";''" "js ''src/db.js''"] rd inc
    by blast
qed

lemma filter_category_map:
  "filter (\<lambda>f. category f = c) (map (\<lambda>r. rule_finding r p) rs)
   = map (\<lambda>r. rule_finding r p) (filter (\<lambda>r. rule_category r = c) rs)"
  by (induction rs) (auto simp: rule_finding_def)

lemma no_cookie_filename_rule:
  "filter (\<lambda>r. rule_category r = Cookies) (triggered_filename_rules p) = []"
  by (simp add: triggered_filename_rules_def filename_rules_def)

lemma cookie_content_rules:
  "filter (\<lambda>r. rule_category r = Cookies) (filter (\<lambda>r. content_rule r content) content_rules)
   = (if match_re re_cookie content \<and> \<not> includesStr content (js ''HttpOnly'')
      then [Cookie_no_httponly] else [])
     @ (if match_re re_cookie content \<and> \<not> includesStr content (js ''Secure'')
        then [Cookie_no_secure] else [])"
  by (simp add: content_rules_def)

text \<open>
  C5.  For a file whose text matches the cookie call: when the text contains
  \<^verbatim>\<open>HttpOnly\<close> and not \<^verbatim>\<open>Secure\<close>, the only finding of category Cookies is the one
  of the rule on the missing Secure flag; when it contains neither, the findings of both
  rules are there, in this order.  Both are of severity High, and they are different
  findings.
\<close>

theorem cookie_rules:
  assumes "readFileSync fileData = Inr content" and "match_re re_cookie content"
  shows "(includesStr content (js ''HttpOnly'') \<and> \<not> includesStr content (js ''Secure'') \<longrightarrow>
            filter (\<lambda>f. category f = Cookies) (scanFile fileData filePath)
            = [rule_finding Cookie_no_secure filePath])
       \<and> (\<not> includesStr content (js ''HttpOnly'') \<and> \<not> includesStr content (js ''Secure'') \<longrightarrow>
            filter (\<lambda>f. category f = Cookies) (scanFile fileData filePath)
            = [rule_finding Cookie_no_httponly filePath, rule_finding Cookie_no_secure filePath])
       \<and> severity (rule_finding Cookie_no_secure filePath) = High
       \<and> severity (rule_finding Cookie_no_httponly filePath) = High
       \<and> rule_finding Cookie_no_httponly filePath \<noteq> rule_finding Cookie_no_secure filePath"
proof -
  have "filter (\<lambda>f. category f = Cookies) (scanFile fileData filePath)
        = map (\<lambda>r. rule_finding r filePath)
            ((if \<not> includesStr content (js ''HttpOnly'') then [Cookie_no_httponly] else [])
             @ (if \<not> includesStr content (js ''Secure'') then [Cookie_no_secure] else []))"
    unfolding scanFile_catalogue filter_append filter_category_map no_cookie_filename_rule
      triggered_content_rules_Inr [OF assms(1)] cookie_content_rules
    using assms(2) by simp
  then show ?thesis
    by (simp add: rule_finding_inj) (simp add: rule_finding_def)
qed

theorem cookie_rules_witness:
  "readFileSync (Some ''res.cookie(\"sid\", v, { HttpOnly })'')
     = Inr (js ''res.cookie(\"sid\", v, { HttpOnly })'')
   \<and> match_re re_cookie (js ''res.cookie(\"sid\", v, { HttpOnly })'')
   \<and> includesStr (js ''res.cookie(\"sid\", v, { HttpOnly })'') (js ''HttpOnly'')
   \<and> \<not> includesStr (js ''res.cookie(\"sid\", v, { HttpOnly })'') (js ''Secure'')
   \<and> filter (\<lambda>f. category f = Cookies)
         (scanFile (Some ''res.cookie(\"sid\", v, { HttpOnly })'') (js ''routes/login.js''))
       = [rule_finding Cookie_no_secure (js ''routes/login.js'')]"
proof -
  have rd: "readFileSync (Some ''res.cookie(\"sid\", v, { HttpOnly })'')
     = Inr (js ''res.cookie(\"sid\", v, { HttpOnly })'')"
    by (simp add: read_eval js_def)
  have m: "match_re re_cookie (js ''res.cookie(\"sid\", v, { HttpOnly })'')"
    by (simp add: content_eval)
  have h: "includesStr (js ''res.cookie(\"sid\", v, { HttpOnly })'') (js ''HttpOnly'')"
    by (simp add: string_eval)
  have s: "\<not> includesStr (js ''res.cookie(\"sid\", v, { HttpOnly })'') (js ''Secure'')"
    by (simp add: string_eval)
  show ?thesis
    using cookie_rules [OF rd m, of "js ''routes/login.js''"] rd m h s by blast
qed


section \<open>The two hash patterns\<close>

lemma match_at_Seq_Atom_case:
  "match_at (Seq (Atom p) r) s = (case s of [] \<Rightarrow> False | c # cs \<Rightarrow> p c \<and> match_at r cs)"
  by (cases s) (simp_all add: match_at_Seq_Atom)

lemma canonicalize_numeral:
  "canonicalize (numeral k) = (if 97 \<le> (numeral k :: nat) \<and> (numeral k :: nat) \<le> 122 then numeral k - 32 else numeral k)"
  by (simp add: canonicalize_def)

lemmas symbolic_defs =
  seqs_def lit_def ilit_def chr_def ichr_def quote_def re_weak_hash_def re_sha256_def

lemma no_common_start:
  "\<not> (match_at re_weak_hash s \<and> match_at re_sha256 s)"
  apply (simp add: symbolic_defs match_at_Seq_Atom_case match_at_Seq_Seq match_at_Seq_One
        match_at_Seq_Alt match_at_One canonicalize_numeral split: list.splits)
  apply (intro allI impI)
  apply (elim conjE disjE)
   apply simp_all
  done

text \<open>
  C7.  The pattern of the rule on MD5 and SHA-1 and the pattern of the rule on SHA-256
  never match at the same place of a text, and no text belongs to the language of both:
  one call with one algorithm name satisfies at most one of them.
\<close>

theorem weak_hash_sha256_exclusive:
  "\<not> (match_at re_weak_hash s \<and> match_at re_sha256 s)
   \<and> lang re_weak_hash \<inter> lang re_sha256 = {}"
proof
  show "\<not> (match_at re_weak_hash s \<and> match_at re_sha256 s)"
    by (rule no_common_start)
  show "lang re_weak_hash \<inter> lang re_sha256 = {}"
  proof (rule ccontr)
    assume "lang re_weak_hash \<inter> lang re_sha256 \<noteq> {}"
    then obtain w where "w \<in> lang re_weak_hash" "w \<in> lang re_sha256" by blast
    then have "match_at re_weak_hash w \<and> match_at re_sha256 w"
      unfolding match_at_iff by (metis append_Nil2)
    then show False using no_common_start by blast
  qed
qed

theorem weak_hash_sha256_exclusive_witness:
  "match_at re_weak_hash (js ''crypto.createHash(\"md5\")'')
   \<and> \<not> match_at re_sha256 (js ''crypto.createHash(\"md5\")'')"
proof -
  have "match_at re_weak_hash (js ''crypto.createHash(\"md5\")'')"
    by (simp add: content_eval)
  then show ?thesis
    using weak_hash_sha256_exclusive [of "js ''crypto.createHash(\"md5\")''"] by blast
qed


section \<open>Paths\<close>

lemmas path_eval =
  js_def basename_def join_def normalize_path_def normalizeString_def normalize_step_def
  excluded_def Let_def

lemma path_examples:
  "join (js ''proj'') (js ''src'') = js ''proj/src''"
  "join (js ''.'') (js ''src'') = js ''src''"
  "join (js ''./'') (js ''src'') = js ''src''"
  "join (js ''/'') (js ''etc'') = js ''/etc''"
  "join (js ''a//b/'') (js ''c'') = js ''a/b/c''"
  "join (js ''a/..'') (js ''b'') = js ''b''"
  "join (js ''..'') (js ''b'') = js ''../b''"
  "basename (js ''a/b/'') = js ''b''"
  "basename (js ''/'') = []"
  "basename (js ''.'') = js ''.''"
  by (simp_all add: path_eval)

lemma split_slash_not_Nil: "split_slash p \<noteq> []"
  by (induction p) (auto split: list.splits)

lemma split_slash_append: "split_slash (a @ 47 # b) = split_slash a @ split_slash b"
proof (induction a)
  case Nil
  then show ?case by simp
next
  case (Cons c a)
  then show ?case
    using split_slash_not_Nil [of a] by (cases "split_slash a") auto
qed

lemma split_slash_no_slash: "47 \<notin> set f \<Longrightarrow> split_slash f = [f]"
  by (induction f) auto

lemma join_slash_snoc:
  "join_slash (res @ [f]) = (if res = [] then f else join_slash res @ 47 # f)"
  by (induction res rule: join_slash.induct) auto

lemma basename_after_slash:
  assumes "47 \<notin> set f" and "f \<noteq> []"
  shows "basename (x @ 47 # f) = f" and "basename f = f"
proof -
  from assms obtain y ys where r: "rev f = y # ys" and y: "y \<noteq> 47"
    by (cases "rev f") (auto simp: in_set_conv_decomp)
  have all: "\<forall>z \<in> set (rev f). z \<noteq> 47" using assms(1) by auto
  have t1: "takeWhile (\<lambda>z. z \<noteq> 47) (rev f @ 47 # rev x) = rev f"
    using all takeWhile_append2 [of "rev f" "\<lambda>z. z \<noteq> 47" "47 # rev x"] by simp
  have d1: "dropWhile (\<lambda>z. z = 47) (rev f @ 47 # rev x) = rev f @ 47 # rev x"
    using r y by simp
  have "rev (x @ 47 # f) = rev f @ 47 # rev x" by simp
  then show "basename (x @ 47 # f) = f"
    unfolding basename_def by (simp only: d1 t1 rev_rev_ident)
  have t2: "takeWhile (\<lambda>z. z \<noteq> 47) (rev f) = rev f"
    using all by simp
  have d2: "dropWhile (\<lambda>z. z = 47) (rev f) = rev f"
    using r y by simp
  show "basename f = f"
    unfolding basename_def by (simp only: d2 t2 rev_rev_ident)
qed

lemma normalizeString_entry:
  assumes "entry_name f"
  shows "normalizeString (a @ 47 # f) allow
         = (let res = foldl (normalize_step allow) [] (split_slash a)
            in if res = [] then f else join_slash res @ 47 # f)"
    and "normalizeString f allow = f"
proof -
  have f: "47 \<notin> set f" "f \<noteq> []" "f \<noteq> js ''.''" "f \<noteq> js ''..''"
    using assms by (auto simp: entry_name_def)
  then have step: "normalize_step allow res f = res @ [f]" for res
    by (simp add: normalize_step_def)
  show "normalizeString (a @ 47 # f) allow
         = (let res = foldl (normalize_step allow) [] (split_slash a)
            in if res = [] then f else join_slash res @ 47 # f)"
    by (simp add: normalizeString_def split_slash_append split_slash_no_slash [OF f(1)] step
          join_slash_snoc Let_def)
  show "normalizeString f allow = f"
    using step [of "[]"] by (simp add: normalizeString_def split_slash_no_slash [OF f(1)])
qed

lemma basename_join:
  assumes "entry_name file"
  shows "basename (join currentPath file) = file"
proof -
  have f: "47 \<notin> set file" "file \<noteq> []"
    using assms by (auto simp: entry_name_def)
  then have l: "last file \<noteq> 47" "hd file \<noteq> 47"
    by (metis last_in_set, metis list.set_sel(1))
  show ?thesis
  proof (cases "currentPath = []")
    case True
    then show ?thesis
      using f l by (simp add: join_def normalize_path_def Let_def
          normalizeString_entry(2) [OF assms] basename_after_slash(2))
  next
    case False
    let ?res = "foldl (normalize_step (hd currentPath \<noteq> 47)) [] (split_slash currentPath)"
    have hd: "hd (currentPath @ 47 # file) = hd currentPath"
      using False by simp
    have "join currentPath file
          = (if hd currentPath = 47 then [47] else [])
            @ (if ?res = [] then file else join_slash ?res @ 47 # file)"
      using False f l
      by (simp add: join_def normalize_path_def Let_def normalizeString_entry(1) [OF assms])
    then show ?thesis
      using basename_after_slash [OF f] basename_after_slash(1) [OF f, of "[]"]
        basename_after_slash(1) [OF f, of "47 # join_slash ?res"]
      by (auto split: if_splits)
  qed
qed


section \<open>The tree walker\<close>

text \<open>
  A scan that meets a path without \<^verbatim>\<open>stat\<close>, a file that cannot be read and an excluded
  directory that cannot be listed, and goes on to the file behind them.
\<close>

lemma walk_example:
  "scanForSecrets
     (Dir (Some [(js ''gone'', NoStat),
                 (js ''dump.bin'', File None),
                 (js ''.git'', Dir None),
                 (js ''app.log'', File (Some ''started''))])) (js ''.'')
   = Inr [rule_finding Log_file (js ''app.log'')]"
  by (simp add: scanForSecrets_def scanFile_catalogue triggered_filename_rules_def
        triggered_content_rules_def filename_rules_def content_rules_def content_eval
        join_def normalize_path_def normalizeString_def normalize_step_def excluded_def Let_def)

lemma unreadable_directory_aborts:
  "basename p \<notin> set excluded \<Longrightarrow> scanForSecrets (Dir None) p = Inl (ReaddirError p)"
  by (simp add: scanForSecrets_def)

text \<open>
  C10.  When the path given to the scan is a directory whose base name is
  \<^verbatim>\<open>node_modules\<close>, \<^verbatim>\<open>.git\<close> or \<^verbatim>\<open>dist\<close>, the scan returns no finding, whatever
  the directory holds.
\<close>

theorem scanForSecrets_excluded_root:
  "basename targetPath \<in> set excluded \<Longrightarrow> scanForSecrets (Dir listing) targetPath = Inr []"
  by (simp add: scanForSecrets_def)

theorem scanForSecrets_excluded_root_witness:
  "scanForSecrets (Dir (Some [(js ''.env'', File (Some ''AWS_SECRET_KEY=1''))]))
     (js ''proj/node_modules/'') = Inr []"
proof -
  have "basename (js ''proj/node_modules/'') \<in> set excluded"
    by (simp add: path_eval)
  then show ?thesis
    by (rule scanForSecrets_excluded_root)
qed

lemma walk_empty_dir:
  "basename p \<in> set excluded \<Longrightarrow> walk (empty_dir n) p acc = walk n p acc"
  by (cases n) (simp_all add: empty_dir_def)

lemma walk_hide:
  "named n \<Longrightarrow> walk (hide n) p acc = walk n p acc"
  "named_files files \<Longrightarrow> walk_files (hide_files files) p acc = walk_files files p acc"
proof (induction n p acc and files p acc rule: walk_walk_files.induct)
  case (3 listing currentPath issues)
  then show ?case by (cases listing) auto
next
  case (6 name n files currentPath issues)
  then have b: "basename (join currentPath name) = name"
    by (simp add: basename_join)
  have "walk (if name \<in> set excluded then empty_dir n else hide n) (join currentPath name) issues
        = walk n (join currentPath name) issues"
    using 6 b by (simp add: walk_empty_dir)
  then show ?case
    using 6 by (auto split: sum.splits)
qed simp_all

text \<open>
  C3.  No file below a directory named \<^verbatim>\<open>node_modules\<close>, \<^verbatim>\<open>.git\<close> or \<^verbatim>\<open>dist\<close>
  contributes a finding: the scan of a tree equals the scan of the tree in which every
  directory of such a name is empty.  The walk decides by the base name of the path it
  has built, which for an entry of a listing is the name of the entry
  (\<open>basename_join\<close>), and returns before it lists the directory.
\<close>

theorem excluded_directories_contribute_nothing:
  "named root \<Longrightarrow> scanForSecrets root targetPath = scanForSecrets (hide root) targetPath"
  by (simp add: scanForSecrets_def walk_hide)

theorem excluded_directories_contribute_nothing_witness:
  "scanForSecrets
     (Dir (Some [(js ''node_modules'', Dir (Some [(js ''.env'', File (Some ''AWS_SECRET_KEY=1''))])),
                 (js ''app.log'', File None)])) (js ''proj'')
   = scanForSecrets
       (Dir (Some [(js ''node_modules'', Dir (Some [])), (js ''app.log'', File None)])) (js ''proj'')"
proof -
  have n: "named (Dir (Some [(js ''node_modules'', Dir (Some [(js ''.env'', File (Some ''AWS_SECRET_KEY=1''))])),
                 (js ''app.log'', File None)]))"
    by (simp add: entry_name_def js_def)
  have h: "hide (Dir (Some [(js ''node_modules'', Dir (Some [(js ''.env'', File (Some ''AWS_SECRET_KEY=1''))])),
                 (js ''app.log'', File None)]))
        = Dir (Some [(js ''node_modules'', Dir (Some [])), (js ''app.log'', File None)])"
    by (simp add: empty_dir_def excluded_def js_def)
  show ?thesis
    using excluded_directories_contribute_nothing [OF n, of "js ''proj''"]
    unfolding h .
qed

lemma walk_listable:
  "listable n \<Longrightarrow> \<exists>acc'. walk n p acc = Inr acc'"
  "listable_files files \<Longrightarrow> \<exists>acc'. walk_files files p acc = Inr acc'"
  by (induction n p acc and files p acc rule: walk_walk_files.induct)
     (auto split: option.splits sum.splits)

text \<open>
  C1, as the code has it.  When \<^verbatim>\<open>statSync\<close> fails on the path given to the scan, the
  scan returns the empty sequence of findings and no error.  A failure of \<^verbatim>\<open>statSync\<close>
  on any path, and a failure to read the content of any file, never abort the scan: on
  every tree whose directories can be listed the scan returns its findings.
\<close>

theorem scan_swallows_stat_and_read_failures:
  "scanForSecrets NoStat targetPath = Inr []
   \<and> (listable root \<longrightarrow> (\<exists>found. scanForSecrets root targetPath = Inr found))"
  using walk_listable(1) [of root targetPath "[]"] by (simp add: scanForSecrets_def)

theorem scan_swallows_stat_and_read_failures_witness:
  "listable (Dir (Some [(js ''gone'', NoStat), (js ''dump.bin'', File None),
                        (js ''app.log'', File (Some ''started''))]))
   \<and> (\<exists>found. scanForSecrets (Dir (Some [(js ''gone'', NoStat), (js ''dump.bin'', File None),
                        (js ''app.log'', File (Some ''started''))])) (js ''proj'') = Inr found)"
proof -
  have l: "listable (Dir (Some [(js ''gone'', NoStat), (js ''dump.bin'', File None),
                        (js ''app.log'', File (Some ''started''))]))"
    by simp
  show ?thesis
    using scan_swallows_stat_and_read_failures
      [of "js ''proj''" "Dir (Some [(js ''gone'', NoStat), (js ''dump.bin'', File None),
                        (js ''app.log'', File (Some ''started''))])"] l
    by blast
qed

text \<open>
  The claim as the specification states it fails: the path does not exist, and the scan
  returns the empty sequence instead of an error.
\<close>

theorem root_stat_failure_counterexample:
  "scanForSecrets NoStat (js ''no/such/path'') = Inr []"
  by (simp add: scanForSecrets_def)


section \<open>The archive view\<close>

lemma mset_insert_sorted: "mset (insert_sorted f x ys) = add_mset x (mset ys)"
  by (induction ys) auto

lemma mset_array_sort: "mset (array_sort f xs) = mset xs"
  unfolding array_sort_def by (induction xs) (auto simp: mset_insert_sorted)

lemma set_insert_sorted: "set (insert_sorted f x ys) = insert x (set ys)"
  by (induction ys) auto

lemma newest_first_valid:
  "valid_date (archived_scannedAt a) \<Longrightarrow> valid_date (archived_scannedAt b) \<Longrightarrow>
     sortCompare newest_first a b < 0 \<longleftrightarrow> \<not> not_older b a"
  by (auto simp: sortCompare_def newest_first_def date_minus_def not_older_def valid_date_def
        split: date.splits)

lemma not_older_trans:
  "valid_date (archived_scannedAt b) \<Longrightarrow> not_older a b \<Longrightarrow> not_older b c \<Longrightarrow> not_older a c"
  by (auto simp: not_older_def valid_date_def split: date.splits)

lemma not_older_total:
  "\<not> not_older a b \<Longrightarrow> not_older b a"
  by (auto simp: not_older_def split: date.splits)

lemma sorted_insert_sorted:
  assumes "\<forall>e \<in> set (x # ys). valid_date (archived_scannedAt e)"
    and "sorted_wrt not_older ys"
  shows "sorted_wrt not_older (insert_sorted newest_first x ys)"
  using assms
proof (induction ys)
  case Nil
  then show ?case by simp
next
  case (Cons y ys)
  show ?case
  proof (cases "sortCompare newest_first y x < 0")
    case True
    then have "not_older y x"
      using Cons.prems(1) newest_first_valid [of y x] not_older_total [of x y] by auto
    then show ?thesis
      using True Cons by (auto simp: set_insert_sorted)
  next
    case False
    then have xy: "not_older x y"
      using Cons.prems(1) newest_first_valid [of y x] by auto
    have "not_older x z" if "z \<in> set ys" for z
      using xy that Cons.prems not_older_trans [of y x z] by auto
    then show ?thesis
      using False xy Cons.prems by auto
  qed
qed

lemma sorted_array_sort:
  "\<forall>e \<in> set xs. valid_date (archived_scannedAt e) \<Longrightarrow>
     sorted_wrt not_older (array_sort newest_first xs)"
proof (induction xs)
  case Nil
  then show ?case by (simp add: array_sort_def)
next
  case (Cons x xs)
  have "set (array_sort newest_first xs) = set xs"
    using mset_array_sort [of newest_first xs] by (metis set_mset_mset)
  then show ?case
    using Cons sorted_insert_sorted [of x "array_sort newest_first xs"]
    by (simp add: array_sort_def)
qed

text \<open>
  C9, as the code has it.  When every recorded time stamp is a valid date, the archive
  view returns the scans of all repositories, each exactly once, with the newest first.
\<close>

theorem archive_newest_first:
  assumes "\<forall>e \<in> set (allScans d). valid_date (archived_scannedAt e)"
  shows "sorted_wrt not_older (get_scans d) \<and> mset (get_scans d) = mset (allScans d)"
  using assms by (simp add: get_scans_def sorted_array_sort mset_array_sort)

lemmas archive_eval =
  get_scans_def allScans_def array_sort_def sortCompare_def newest_first_def date_minus_def
  not_older_def valid_date_def

theorem archive_newest_first_witness:
  "sorted_wrt not_older (get_scans \<lparr>repos = [\<lparr>repoName = js ''app'', sourceType = js ''local'', sourceUrl = None,
        scans = [\<lparr>scan_issues = (1::nat), scannedAt = Date 1\<rparr>,
                 \<lparr>scan_issues = 2, scannedAt = Date 3\<rparr>,
                 \<lparr>scan_issues = 3, scannedAt = Date 2\<rparr>], verified = True\<rparr>],
        stats = \<lparr>totalIssuesDetected = 6, totalScans = 1\<rparr>\<rparr>)
   \<and> mset (get_scans \<lparr>repos = [\<lparr>repoName = js ''app'', sourceType = js ''local'', sourceUrl = None,
        scans = [\<lparr>scan_issues = (1::nat), scannedAt = Date 1\<rparr>,
                 \<lparr>scan_issues = 2, scannedAt = Date 3\<rparr>,
                 \<lparr>scan_issues = 3, scannedAt = Date 2\<rparr>], verified = True\<rparr>],
        stats = \<lparr>totalIssuesDetected = 6, totalScans = 1\<rparr>\<rparr>)
     = mset (allScans \<lparr>repos = [\<lparr>repoName = js ''app'', sourceType = js ''local'', sourceUrl = None,
        scans = [\<lparr>scan_issues = (1::nat), scannedAt = Date 1\<rparr>,
                 \<lparr>scan_issues = 2, scannedAt = Date 3\<rparr>,
                 \<lparr>scan_issues = 3, scannedAt = Date 2\<rparr>], verified = True\<rparr>],
        stats = \<lparr>totalIssuesDetected = 6, totalScans = 1\<rparr>\<rparr>)"
proof -
  have v: "\<forall>e \<in> set (allScans \<lparr>repos = [\<lparr>repoName = js ''app'', sourceType = js ''local'', sourceUrl = None,
        scans = [\<lparr>scan_issues = (1::nat), scannedAt = Date 1\<rparr>,
                 \<lparr>scan_issues = 2, scannedAt = Date 3\<rparr>,
                 \<lparr>scan_issues = 3, scannedAt = Date 2\<rparr>], verified = True\<rparr>],
        stats = \<lparr>totalIssuesDetected = 6, totalScans = 1\<rparr>\<rparr>). valid_date (archived_scannedAt e)"
    by (simp add: allScans_def valid_date_def)
  show ?thesis
    using archive_newest_first [OF v] .
qed

text \<open>
  The claim as the specification states it, for every stored data set, fails: the
  second of three scans has no valid time stamp, every comparison with it gives NaN,
  and the view returns the scans as they are stored, the older of the other two first.
\<close>

theorem archive_invalid_date_counterexample:
  "get_scans \<lparr>repos = [\<lparr>repoName = js ''app'', sourceType = js ''local'', sourceUrl = None,
        scans = [\<lparr>scan_issues = (1::nat), scannedAt = Date 1\<rparr>,
                 \<lparr>scan_issues = 2, scannedAt = InvalidDate\<rparr>,
                 \<lparr>scan_issues = 3, scannedAt = Date 2\<rparr>], verified = True\<rparr>],
        stats = \<lparr>totalIssuesDetected = 6, totalScans = 1\<rparr>\<rparr>
   = [\<lparr>archived_repoName = js ''app'', fileIssues = 1, archived_scannedAt = Date 1\<rparr>,
      \<lparr>archived_repoName = js ''app'', fileIssues = 2, archived_scannedAt = InvalidDate\<rparr>,
      \<lparr>archived_repoName = js ''app'', fileIssues = 3, archived_scannedAt = Date 2\<rparr>]
   \<and> \<not> sorted_wrt not_older
        [\<lparr>archived_repoName = js ''app'', fileIssues = (1::nat), archived_scannedAt = Date 1\<rparr>,
         \<lparr>archived_repoName = js ''app'', fileIssues = 2, archived_scannedAt = InvalidDate\<rparr>,
         \<lparr>archived_repoName = js ''app'', fileIssues = 3, archived_scannedAt = Date 2\<rparr>]"
  by (simp add: archive_eval)

end
